theory Spec2Isabelle
  imports Complex_Main
begin

section \<open>JavaScript values\<close>

text \<open>
  The parser works on the cells of CSV rows and on plain objects built from them.
  A cell or a property value is a primitive JavaScript value.  A number is a double:
  not-a-number, one of the two infinities, or a finite value (every finite double is a
  rational; \<open>+0\<close> and \<open>-0\<close> are the one value \<open>Finite 0\<close>, which is how \<open>===\<close> and
  truthiness see them).
\<close>

datatype jsnum = NaN | PosInf | NegInf | Finite rat

datatype jsval = Undefined | Null | Bool bool | Num jsnum | Str string

text \<open>
  Two conversions belong to the JavaScript engine and not to this program: the
  conversion of a string to a number (what unary \<open>+\<close> does to a string) and the
  printing of a number (what a property access does to a numeric key).  They are taken as
  they are given.
\<close>

record engine =
  to_number :: "string \<Rightarrow> jsnum"
  number_to_string :: "jsnum \<Rightarrow> string"

text \<open>
  An object is its own enumerable properties: a property that holds \<open>undefined\<close> is
  present (\<open>Some Undefined\<close>), a property that was never written or was deleted is absent
  (\<open>None\<close>).  Property names are data names (dictionary keys, CSV headers, metadata
  labels); names that an object inherits from \<open>Object.prototype\<close>, such as
  \<open>__proto__\<close>, are not data names and stay outside the model.
\<close>

type_synonym obj = "string \<rightharpoonup> jsval"

definition get :: "obj \<Rightarrow> string \<Rightarrow> jsval" where
  \<comment> \<open>the property read \<open>o[k]\<close>: an absent property reads as \<open>undefined\<close>\<close>
  "get ob k = (case ob k of None \<Rightarrow> Undefined | Some v \<Rightarrow> v)"

definition nth_cell :: "jsval list \<Rightarrow> nat \<Rightarrow> jsval" where
  \<comment> \<open>the array read \<open>row[i]\<close>: out of range it is \<open>undefined\<close>\<close>
  "nth_cell row i = (if i < length row then row ! i else Undefined)"

definition to_key :: "engine \<Rightarrow> jsval \<Rightarrow> string" where
  \<comment> \<open>the property key that \<open>o[v] = ...\<close> writes to\<close>
  "to_key E v = (case v of
       Undefined \<Rightarrow> ''undefined''
     | Null \<Rightarrow> ''null''
     | Bool b \<Rightarrow> (if b then ''true'' else ''false'')
     | Num n \<Rightarrow> number_to_string E n
     | Str s \<Rightarrow> s)"

definition truthy :: "jsval \<Rightarrow> bool" where
  "truthy v = (case v of
       Undefined \<Rightarrow> False
     | Null \<Rightarrow> False
     | Bool b \<Rightarrow> b
     | Num n \<Rightarrow> n \<noteq> NaN \<and> n \<noteq> Finite 0
     | Str s \<Rightarrow> s \<noteq> [])"

definition is_finite :: "jsnum \<Rightarrow> bool" where
  "is_finite n = (case n of Finite q \<Rightarrow> True | _ \<Rightarrow> False)"

definition to_num :: "engine \<Rightarrow> jsval \<Rightarrow> jsnum" where
  \<comment> \<open>unary plus, \<open>+value\<close>\<close>
  "to_num E v = (case v of
       Undefined \<Rightarrow> NaN
     | Null \<Rightarrow> Finite 0
     | Bool b \<Rightarrow> (if b then Finite 1 else Finite 0)
     | Num n \<Rightarrow> n
     | Str s \<Rightarrow> to_number E s)"

definition isNumber :: "engine \<Rightarrow> jsval \<Rightarrow> bool" where
  \<comment> \<open>the is-number package, version 2: the type is number or string, \<open>+num\<close> is
      finite (\<open>(n - n + 1) >= 0\<close>), and \<open>num !== ''\<close>\<close>
  "isNumber E v = (case v of
       Num n \<Rightarrow> is_finite n
     | Str s \<Rightarrow> is_finite (to_number E s) \<and> s \<noteq> []
     | _ \<Rightarrow> False)"

datatype error = TypeError | AssertionError | InvalidInput | StreamError string

section \<open>Strings\<close>

text \<open>
  The stream is decoded one byte to one character before it is tokenized, so every
  character of a cell is a code unit below 256, which is what \<^typ>\<open>char\<close> is.
\<close>

definition is_digit :: "char \<Rightarrow> bool" where
  \<comment> \<open>the regular expression class \<open>\\d\<close>\<close>
  "is_digit c = (c \<in> set ''0123456789'')"

definition lower_char :: "char \<Rightarrow> char" where
  "lower_char c = (let n = (of_char c :: nat) in
     if (65 \<le> n \<and> n \<le> 90) \<or> (192 \<le> n \<and> n \<le> 222 \<and> n \<noteq> 215)
     then char_of (n + 32) else c)"

definition toLowerCase :: "string \<Rightarrow> string" where
  "toLowerCase s = map lower_char s"

definition is_space :: "char \<Rightarrow> bool" where
  \<comment> \<open>the white space and line terminators below 256 that \<open>trim\<close> removes\<close>
  "is_space c = ((of_char c :: nat) \<in> {9, 10, 11, 12, 13, 32, 160})"

definition trim :: "string \<Rightarrow> string" where
  "trim s = rev (dropWhile is_space (rev (dropWhile is_space s)))"

fun match_paperType :: "string \<Rightarrow> string option" where
  \<comment> \<open>\<open>s.match(/\\d[F]?/i)\<close>: the leftmost digit, with the \<open>F\<close> or \<open>f\<close> right after it\<close>
  "match_paperType [] = None"
| "match_paperType (c # cs) =
     (if is_digit c
      then Some (c # (case cs of [] \<Rightarrow> [] | d # _ \<Rightarrow> if d = CHR ''F'' \<or> d = CHR ''f'' then [d] else []))
      else match_paperType cs)"

fun match_machine :: "string \<Rightarrow> string option" where
  \<comment> \<open>the first element of \<open>s.match(/R\\d{3}/gi)\<close>: the leftmost match\<close>
  "match_machine [] = None"
| "match_machine (c # cs) =
     (if (c = CHR ''R'' \<or> c = CHR ''r'') \<and> 3 \<le> length cs \<and> list_all is_digit (take 3 cs)
      then Some (c # take 3 cs)
      else match_machine cs)"

section \<open>The machine name\<close>

definition getMachineName :: "string option \<Rightarrow> string" where
  \<comment> \<open>\<open>None\<close> is a filename that is \<open>undefined\<close>\<close>
  "getMachineName filename = (case filename of
       None \<Rightarrow> []
     | Some f \<Rightarrow> if f = [] then []
                else (case match_machine f of None \<Rightarrow> [] | Some m \<Rightarrow> m))"

definition is_machine_name :: "string \<Rightarrow> bool" where
  \<comment> \<open>one \<open>R\<close>, in either case, followed by exactly three digits\<close>
  "is_machine_name m = (case m of
       [r, a, b, c] \<Rightarrow> (r = CHR ''R'' \<or> r = CHR ''r'') \<and> is_digit a \<and> is_digit b \<and> is_digit c
     | _ \<Rightarrow> False)"

definition has_match :: "string \<Rightarrow> bool" where
  \<comment> \<open>the filename has a substring that is a machine name\<close>
  "has_match f = (\<exists>pre m post. f = pre @ m @ post \<and> is_machine_name m)"

definition is_first_match :: "string \<Rightarrow> string \<Rightarrow> bool" where
  \<comment> \<open>\<open>m\<close> is a machine name inside \<open>f\<close>, and no machine name starts further left\<close>
  "is_first_match f m = (\<exists>pre post. f = pre @ m @ post \<and> is_machine_name m \<and>
     (\<forall>pre' m' post'. f = pre' @ m' @ post' \<and> is_machine_name m' \<longrightarrow> length pre \<le> length pre'))"

section \<open>The dictionary\<close>

text \<open>
  The dictionary is a JSON resource that the module loads and freezes; its content is not
  part of the code, so every function takes the section it reads as an argument, as the
  exported functions do.  A section of the \<open>meta\<close> or \<open>data\<close> kind lists, in the order of
  \<open>Object.keys\<close>, each logical key with the \<open>manroland\<close> column name of its entry; a
  section of the \<open>secondary\<close> kind lists each derived colour with its three columns.
\<close>

type_synonym dict_section = "(string \<times> string) list"

record lab_columns =
  act_L :: string
  act_a :: string
  act_b :: string

type_synonym secondary_section = "(string \<times> lab_columns) list"

record dictionary =
  dict_meta :: dict_section
  dict_data :: dict_section
  dict_secondary :: secondary_section

definition getKeys :: "('k \<times> 'e) list \<Rightarrow> 'k list" where
  "getKeys dict = map fst dict"

section \<open>Field normalizer\<close>

text \<open>
  The arguments of the functions below have the types that the assertions of the source
  check (\<open>typeof input === 'object'\<close>, \<open>Array.isArray(row)\<close>), so in this part an
  assertion cannot fail; the header mapper on the store further down has the assertions as
  branches.  A call of \<open>log\<close> writes to the debug log and is left out; the argument of
  the first one in \<open>parser\<close> can throw, and that is a branch of \<open>parser\<close>.
\<close>

definition project :: "obj \<Rightarrow> dict_section \<Rightarrow> obj" where
  \<comment> \<open>\<open>getKeys(dict).forEach((key) => output[key] = input[dict[key].manroland])\<close>\<close>
  "project input dict = foldl (\<lambda>output (key, column). output(key \<mapsto> get input column)) Map.empty dict"

definition normalize_paperType :: "obj \<Rightarrow> error + obj" where
  \<comment> \<open>\<open>if (typeof output.paperType === 'string') output.paperType = output.paperType.match(/\\d[F]?/i)[0]\<close>;
      without a match, \<open>match\<close> is \<open>null\<close> and the index throws\<close>
  "normalize_paperType output =
     (case get output ''paperType'' of
        Str s \<Rightarrow> (case match_paperType s of
                    None \<Rightarrow> Inl TypeError
                  | Some m \<Rightarrow> Inr (output(''paperType'' \<mapsto> Str m)))
      | _ \<Rightarrow> Inr output)"

definition normalize_sheet :: "obj \<Rightarrow> obj" where
  \<comment> \<open>\<open>if (typeof output.sheet === 'string') output.sheet = output.sheet.replace('-', '').trim()\<close>\<close>
  "normalize_sheet output =
     (case get output ''sheet'' of
        Str s \<Rightarrow> output(''sheet'' \<mapsto> Str (trim (remove1 CHR ''-'' s)))
      | _ \<Rightarrow> output)"

definition normalizeMeta :: "obj \<Rightarrow> dict_section \<Rightarrow> error + obj" where
  "normalizeMeta input dict =
     (case normalize_paperType (project input dict) of
        Inl e \<Rightarrow> Inl e
      | Inr output \<Rightarrow> Inr (normalize_sheet output))"

fun normalizeDataRow_reduce :: "engine \<Rightarrow> obj \<Rightarrow> dict_section \<Rightarrow> obj \<Rightarrow> error + obj" where
  "normalizeDataRow_reduce E row [] obj = Inr obj"
| "normalizeDataRow_reduce E row ((key, column) # rest) obj =
     (let value = get row column in
      if isNumber E value then normalizeDataRow_reduce E row rest (obj(key \<mapsto> Num (to_num E value)))
      else if key = ''color'' then
        (case value of
           Str s \<Rightarrow> normalizeDataRow_reduce E row rest (obj(key \<mapsto> Str (toLowerCase s)))
         | _ \<Rightarrow> Inl TypeError)
      else normalizeDataRow_reduce E row rest (obj(key \<mapsto> value)))"

definition normalizeDataRow :: "engine \<Rightarrow> obj \<Rightarrow> dict_section \<Rightarrow> error + obj" where
  "normalizeDataRow E row dict = normalizeDataRow_reduce E row dict Map.empty"

section \<open>Legacy schema reconciler\<close>

definition correctOldTonval :: "obj \<Rightarrow> obj" where
  "correctOldTonval row =
     (if get row ''tonVal40'' \<noteq> Undefined then row
      else (let newRow = row(''tonVal40'' \<mapsto> get row ''tonVal50'') in
            newRow(''tonVal50'' := None, ''tonVal20'' := None)))"

section \<open>Secondary colours\<close>

definition tryNumber :: "engine \<Rightarrow> jsval \<Rightarrow> jsval" where
  "tryNumber E v = (if isNumber E v then Num (to_num E v) else v)"

definition normalizeSecondaryColorRow :: "engine \<Rightarrow> obj \<Rightarrow> secondary_section \<Rightarrow> obj list" where
  "normalizeSecondaryColorRow E row dict =
     filter (\<lambda>row. truthy (get row ''act_L'') \<and> truthy (get row ''act_a'') \<and> truthy (get row ''act_b''))
       (map (\<lambda>(color, entry).
           [''colorName'' \<mapsto> Str color,
            ''color'' \<mapsto> Str (toLowerCase color),
            ''act_L'' \<mapsto> tryNumber E (get row (act_L entry)),
            ''act_a'' \<mapsto> tryNumber E (get row (act_a entry)),
            ''act_b'' \<mapsto> tryNumber E (get row (act_b entry))]) dict)"

definition enhanceSecondaryColorRow :: "obj \<Rightarrow> obj \<Rightarrow> obj" where
  "enhanceSecondaryColorRow secondaryColorRow normalizedRow =
     secondaryColorRow(''pUnitNo'' \<mapsto> get normalizedRow ''pUnitNo'',
                       ''measuringNo'' \<mapsto> get normalizedRow ''measuringNo'',
                       ''zoneNo'' \<mapsto> get normalizedRow ''zoneNo'')"

section \<open>Row classifier\<close>

definition skip :: "jsval list \<Rightarrow> bool" where
  "skip row = (nth_cell row 0 = Str ''Raster-Percent :'' \<or> nth_cell row 1 = Str ''GB'')"

definition isSecondaryColorRow :: "jsval list \<Rightarrow> bool" where
  "isSecondaryColorRow row = (nth_cell row 1 = Str ''T'')"

definition isHeaderRow :: "jsval list \<Rightarrow> bool" where
  "isHeaderRow row = (nth_cell row 0 = Str ''Protocolled Measuring No'')"

section \<open>Header mapper\<close>

fun mapToHeaders_reduce :: "engine \<Rightarrow> jsval list \<Rightarrow> jsval list \<Rightarrow> nat \<Rightarrow> obj \<Rightarrow> obj" where
  \<comment> \<open>\<open>row.reduce((obj, value, i) => { obj[headers[i]] = value; return obj }, ...)\<close>, from index \<open>i\<close> on\<close>
  "mapToHeaders_reduce E [] headers i obj = obj"
| "mapToHeaders_reduce E (value # rest) headers i obj =
     mapToHeaders_reduce E rest headers (Suc i) (obj(to_key E (nth_cell headers i) \<mapsto> value))"

definition mapToHeaders :: "engine \<Rightarrow> jsval list \<Rightarrow> jsval list \<Rightarrow> obj" where
  "mapToHeaders E row headers = mapToHeaders_reduce E row headers 0 Map.empty"

text \<open>
  The same function on a store, where the two arrays and the object that the reduction
  fills are cells at addresses, so that a write to the accumulator is a write to the
  store and the two arguments may be one array.  An address is an index into the store;
  a new cell goes to the end.
\<close>

datatype cell = Arr "jsval list" | Obj obj

type_synonym heap = "cell list"

definition heap_get :: "heap \<Rightarrow> nat \<Rightarrow> cell option" where
  "heap_get h a = (if a < length h then Some (h ! a) else None)"

definition alloc :: "heap \<Rightarrow> cell \<Rightarrow> heap \<times> nat" where
  "alloc h c = (h @ [c], length h)"

definition isArray :: "heap \<Rightarrow> nat \<Rightarrow> bool" where
  "isArray h a = (case heap_get h a of Some (Arr xs) \<Rightarrow> True | _ \<Rightarrow> False)"

definition array_length :: "heap \<Rightarrow> nat \<Rightarrow> nat" where
  "array_length h a = (case heap_get h a of Some (Arr xs) \<Rightarrow> length xs | _ \<Rightarrow> 0)"

definition array_read :: "heap \<Rightarrow> nat \<Rightarrow> nat \<Rightarrow> jsval" where
  "array_read h a i = (case heap_get h a of Some (Arr xs) \<Rightarrow> nth_cell xs i | _ \<Rightarrow> Undefined)"

definition object_write :: "heap \<Rightarrow> nat \<Rightarrow> string \<Rightarrow> jsval \<Rightarrow> heap" where
  "object_write h a k v = (case heap_get h a of Some (Obj ob) \<Rightarrow> h[a := Obj (ob(k \<mapsto> v))] | _ \<Rightarrow> h)"

definition mapToHeaders_callback :: "engine \<Rightarrow> nat \<Rightarrow> nat \<Rightarrow> nat \<Rightarrow> heap \<Rightarrow> nat \<Rightarrow> heap" where
  \<comment> \<open>one call of \<open>(obj, value, i) => { obj[headers[i]] = value; return obj }\<close>\<close>
  "mapToHeaders_callback E row headers obj h i =
     object_write h obj (to_key E (array_read h headers i)) (array_read h row i)"

definition mapToHeaders_heap :: "engine \<Rightarrow> nat \<Rightarrow> nat \<Rightarrow> heap \<Rightarrow> heap \<times> (error + nat)" where
  "mapToHeaders_heap E row headers h =
     (if \<not> isArray h row then (h, Inl AssertionError)
      else if \<not> isArray h headers then (h, Inl AssertionError)
      else (let (h1, obj) = alloc h (Obj Map.empty) in
            (foldl (mapToHeaders_callback E row headers obj) h1 [0 ..< array_length h row], Inr obj)))"

section \<open>Stream driver\<close>

text \<open>
  The variables \<open>meta\<close>, \<open>values\<close>, \<open>headers\<close> and \<open>isData\<close> of one call of \<open>parser\<close>
  are its state; \<open>onData\<close> handles one row, and an exception it throws is the result
  \<open>Inl\<close>.
\<close>

record state =
  meta :: obj
  "values" :: "obj list"
  headers :: "jsval list"
  isData :: bool

definition onData :: "engine \<Rightarrow> dictionary \<Rightarrow> state \<Rightarrow> jsval list \<Rightarrow> error + state" where
  "onData E D st row =
     (if skip row then Inr st
      else if isData st then
        (let mapped = mapToHeaders E row (headers st) in
         case normalizeDataRow E mapped (dict_data D) of
           Inl e \<Rightarrow> Inl e
         | Inr r \<Rightarrow>
             (let normalized = correctOldTonval r in
              if isSecondaryColorRow row
              then Inr (st\<lparr>values := values st @
                          map (\<lambda>secondaryColorRow. enhanceSecondaryColorRow secondaryColorRow normalized)
                            (normalizeSecondaryColorRow E mapped (dict_secondary D))\<rparr>)
              else Inr (st\<lparr>values := values st @ [normalized]\<rparr>)))
      else if isHeaderRow row then Inr (st\<lparr>headers := headers st @ row, isData := True\<rparr>)
      else Inr (st\<lparr>meta := (meta st)(to_key E (nth_cell row 0) \<mapsto> nth_cell row 1)\<rparr>))"

fun feed :: "engine \<Rightarrow> dictionary \<Rightarrow> state \<Rightarrow> jsval list list \<Rightarrow> error + state" where
  \<comment> \<open>the \<open>data\<close> events of the tokenizer, in order; a handler that throws ends them\<close>
  "feed E D st [] = Inr st"
| "feed E D st (row # rest) =
     (case onData E D st row of Inl e \<Rightarrow> Inl e | Inr st' \<Rightarrow> feed E D st' rest)"

text \<open>
  The input: the two names the stream may carry, the rows that the decoder and the
  tokenizer deliver from it, and the error, if any, with which that pipeline ends.
\<close>

record input_stream =
  filename :: "string option"
  path :: "string option"
  rows :: "jsval list list"
  stream_error :: "error option"

record parse_result =
  result_meta :: obj
  result_values :: "obj list"

text \<open>
  What a call of \<open>parser\<close> does to its caller: the calls of \<open>cb\<close> it makes, each with
  its two arguments (\<open>null\<close> or absent is \<open>None\<close>), and the exception that leaves a
  handler uncaught, if one does.
\<close>

record cb_call =
  cb_err :: "error option"
  cb_result :: "parse_result option"

record outcome =
  uncaught :: "error option"
  cb_calls :: "cb_call list"

definition or_else :: "string option \<Rightarrow> string option \<Rightarrow> string option" where
  \<comment> \<open>\<open>file.filename || file.path\<close>\<close>
  "or_else a b = (case a of None \<Rightarrow> b | Some s \<Rightarrow> if s = [] then b else Some s)"

definition on_end :: "dictionary \<Rightarrow> string \<Rightarrow> state \<Rightarrow> error option \<Rightarrow> outcome" where
  \<comment> \<open>the callback given to \<open>pump\<close>\<close>
  "on_end D machine st err =
     (case err of
        Some e \<Rightarrow> \<lparr>uncaught = None, cb_calls = [\<lparr>cb_err = Some e, cb_result = None\<rparr>]\<rparr>
      | None \<Rightarrow>
          if values st = [] then \<lparr>uncaught = None, cb_calls = [\<lparr>cb_err = Some InvalidInput, cb_result = None\<rparr>]\<rparr>
          else (case normalizeMeta (meta st) (dict_meta D) of
                  Inl e \<Rightarrow> \<lparr>uncaught = Some e, cb_calls = []\<rparr>
                | Inr m \<Rightarrow>
                    (let normalizedMetadata = [''maker'' \<mapsto> Str ''manroland'', ''machine'' \<mapsto> Str machine] ++ m in
                     \<lparr>uncaught = None,
                      cb_calls = [\<lparr>cb_err = None,
                                   cb_result = Some \<lparr>result_meta = normalizedMetadata, result_values = values st\<rparr>\<rparr>]\<rparr>)))"

definition initial_state :: state where
  \<comment> \<open>\<open>const meta = {}\<close>, \<open>const values = []\<close>, \<open>let headers = []\<close>, \<open>let isData = false\<close>\<close>
  "initial_state = \<lparr>meta = Map.empty, values = [], headers = [], isData = False\<rparr>"

text \<open>
  A call of \<open>parser\<close>.  Its first statement, \<open>log(path.basename(file.filename || file.path))\<close>,
  evaluates \<open>path.basename\<close> on the name whether or not the log is enabled, and
  \<open>path.basename\<close> throws a \<open>TypeError\<close> on \<open>undefined\<close>: for a stream that carries neither
  name the call throws there, before any callback is registered.  Otherwise the rows are
  handled in order.  \<open>onData\<close> runs inside the write of the piped streams, so an exception
  it throws is caught by the decoding stream that is pushing the chunk and becomes the error
  of the pipeline: no later row is handled and \<open>pump\<close> calls its callback with that
  error.  An exception thrown inside the callback of \<open>pump\<close> itself (by \<open>normalizeMeta\<close>)
  is caught by nothing.
\<close>

definition parser :: "engine \<Rightarrow> dictionary \<Rightarrow> input_stream \<Rightarrow> outcome" where
  \<comment> \<open>in the branch \<open>Inl e\<close> the callback of \<open>pump\<close> runs with \<open>err = e\<close>: \<open>if (err) return cb(err)\<close>\<close>
  "parser E D f =
     (case or_else (filename f) (path f) of
        None \<Rightarrow> \<lparr>uncaught = Some TypeError, cb_calls = []\<rparr>
      | Some name \<Rightarrow>
          (let machine = getMachineName (Some name) in
           case feed E D initial_state (rows f) of
             Inl e \<Rightarrow> \<lparr>uncaught = None, cb_calls = [\<lparr>cb_err = Some e, cb_result = None\<rparr>]\<rparr>
           | Inr st \<Rightarrow> on_end D machine st (stream_error f)))"

section \<open>Sample inputs\<close>

text \<open>
  A conversion and a dictionary on which the examples below are evaluated.  The sample
  conversion reads a string of decimal digits as the natural number it writes and any other
  string as not-a-number, and prints a natural number in decimal; the dictionary has entries
  of the kind that the unit tests of the functions use.
\<close>

definition digit_value :: "char \<Rightarrow> nat" where
  "digit_value c = of_char c - 48"

definition sample_to_number :: "string \<Rightarrow> jsnum" where
  "sample_to_number s =
     (if list_all is_digit s then Finite (of_nat (foldl (\<lambda>n c. 10 * n + digit_value c) 0 s)) else NaN)"

fun decimal :: "nat \<Rightarrow> string" where
  "decimal n = (if n < 10 then [char_of (48 + n)] else decimal (n div 10) @ [char_of (48 + n mod 10)])"

definition sample_number_to_string :: "jsnum \<Rightarrow> string" where
  "sample_number_to_string n =
     (case n of NaN \<Rightarrow> ''NaN'' | PosInf \<Rightarrow> ''Infinity'' | NegInf \<Rightarrow> ''-Infinity''
      | Finite q \<Rightarrow> decimal (nat \<lfloor>q\<rfloor>))"

definition sample_engine :: engine where
  "sample_engine = \<lparr>to_number = sample_to_number, number_to_string = sample_number_to_string\<rparr>"

definition sample_dictionary :: dictionary where
  "sample_dictionary =
     \<lparr>dict_meta = [(''jobNo'', ''Job No''), (''paperType'', ''Paper Type''), (''sheet'', ''Sheet'')],
      dict_data = [(''color'', ''ColorName''), (''measuringNo'', ''Protocolled Measuring No''),
                   (''tonVal40'', ''Tonval 40''), (''tonVal50'', ''Tonval 50''), (''tonVal20'', ''Tonval 20'')],
      dict_secondary =
        [(''CM'', \<lparr>act_L = ''L-Value T(C+M) - Solid Tone'', act_a = ''a-Value T(C+M) - Solid Tone'',
                   act_b = ''b-Value T(C+M) - Solid Tone''\<rparr>),
         (''MY'', \<lparr>act_L = ''L-Value T(M+Y) - Solid Tone'', act_a = ''a-Value T(M+Y) - Solid Tone'',
                   act_b = ''b-Value T(M+Y) - Solid Tone''\<rparr>),
         (''CY'', \<lparr>act_L = ''L-Value T(C+Y) - Solid Tone'', act_a = ''a-Value T(C+Y) - Solid Tone'',
                   act_b = ''b-Value T(C+Y) - Solid Tone''\<rparr>)]\<rparr>"

definition sample_secondary_row :: obj where
  "sample_secondary_row =
     [''L-Value T(C+M) - Solid Tone'' \<mapsto> Num (Finite 1), ''a-Value T(C+M) - Solid Tone'' \<mapsto> Str ''15'',
      ''b-Value T(C+M) - Solid Tone'' \<mapsto> Str ''17'',
      ''L-Value T(M+Y) - Solid Tone'' \<mapsto> Num (Finite 2), ''a-Value T(M+Y) - Solid Tone'' \<mapsto> Str ''0'',
      ''b-Value T(M+Y) - Solid Tone'' \<mapsto> Num (Finite 2),
      ''L-Value T(C+Y) - Solid Tone'' \<mapsto> Num (Finite 3)]"

definition sample_rows :: "jsval list list" where
  "sample_rows =
     [[Str ''Job No'', Str ''12-1119''],
      [Str ''Paper Type'', Str ''4 (bar)''],
      [Str ''Protocolled Measuring No'', Str ''ColorName'', Str ''Tonval 50''],
      [Str ''1'', Str ''BLK'', Str ''50'']]"

definition sample_stream :: input_stream where
  "sample_stream = \<lparr>filename = None, path = Some ''fixtures/R508_12-07-19.csv'', rows = sample_rows, stream_error = None\<rparr>"

definition null_color_stream :: input_stream where
  \<comment> \<open>as \<open>sample_stream\<close>, followed by a data row whose colour cell is empty\<close>
  "null_color_stream = sample_stream\<lparr>rows := sample_rows @ [[Str ''2'', Null, Str ''50'']]\<rparr>"





definition sample_final_state :: state where
  "sample_final_state =
     \<lparr>meta = [''Job No'' \<mapsto> Str ''12-1119'', ''Paper Type'' \<mapsto> Str ''4 (bar)''],
      values = [[''color'' \<mapsto> Str ''blk'', ''measuringNo'' \<mapsto> Num (Finite 1), ''tonVal40'' \<mapsto> Num (Finite 50)]],
      headers = [Str ''Protocolled Measuring No'', Str ''ColorName'', Str ''Tonval 50''],
      isData = True\<rparr>"

section \<open>Stated properties\<close>

definition leading_digit_F :: "string \<Rightarrow> string \<Rightarrow> bool" where
  \<comment> \<open>\<open>m\<close> is the first digit of \<open>s\<close>, followed by the \<open>F\<close> or \<open>f\<close> that comes right
      after that digit in \<open>s\<close>, if one does\<close>
  "leading_digit_F s m = (\<exists>pre d rest. s = pre @ d # rest \<and> (\<forall>c \<in> set pre. \<not> is_digit c) \<and> is_digit d \<and>
     m = d # (case rest of [] \<Rightarrow> [] | e # _ \<Rightarrow> if e = CHR ''F'' \<or> e = CHR ''f'' then [e] else []))"

section \<open>The machine name: proofs\<close>

lemma is_machine_name_prefix:
  "(\<exists>m post. s = m @ post \<and> is_machine_name m) \<longleftrightarrow>
   (case s of [] \<Rightarrow> False | c # cs \<Rightarrow> (c = CHR ''R'' \<or> c = CHR ''r'') \<and> 3 \<le> length cs \<and> list_all is_digit (take 3 cs))"
proof (cases s)
  case Nil
  then show ?thesis by (auto simp: is_machine_name_def)
next
  case (Cons c cs)
  show ?thesis
  proof
    assume "\<exists>m post. s = m @ post \<and> is_machine_name m"
    then obtain m post where s: "s = m @ post" and m: "is_machine_name m" by blast
    from m obtain r a b d where m4: "m = [r, a, b, d]"
      and ok: "(r = CHR ''R'' \<or> r = CHR ''r'')" "is_digit a" "is_digit b" "is_digit d"
      by (auto simp: is_machine_name_def split: list.splits)
    with s Cons show "case s of [] \<Rightarrow> False | c # cs \<Rightarrow> (c = CHR ''R'' \<or> c = CHR ''r'') \<and> 3 \<le> length cs \<and> list_all is_digit (take 3 cs)"
      by auto
  next
    assume h: "case s of [] \<Rightarrow> False | c # cs \<Rightarrow> (c = CHR ''R'' \<or> c = CHR ''r'') \<and> 3 \<le> length cs \<and> list_all is_digit (take 3 cs)"
    with Cons have c: "c = CHR ''R'' \<or> c = CHR ''r''" and l: "3 \<le> length cs" and d: "list_all is_digit (take 3 cs)"
      by auto
    from l obtain a b e rest where cs: "cs = a # b # e # rest"
      by (metis Suc_le_length_iff numeral_3_eq_3)
    with d c have "is_machine_name [c, a, b, e]" by (simp add: is_machine_name_def)
    moreover have "s = [c, a, b, e] @ rest" using Cons cs by simp
    ultimately show "\<exists>m post. s = m @ post \<and> is_machine_name m" by blast
  qed
qed

lemma is_machine_name_prefix_Cons:
  "(\<exists>m post. c # cs = m @ post \<and> is_machine_name m) \<longleftrightarrow>
   ((c = CHR ''R'' \<or> c = CHR ''r'') \<and> 3 \<le> length cs \<and> list_all is_digit (take 3 cs))"
  using is_machine_name_prefix[of "c # cs"] by simp

lemma match_machine_head:
  assumes "(c = CHR ''R'' \<or> c = CHR ''r'') \<and> 3 \<le> length cs \<and> list_all is_digit (take 3 cs)"
  shows "is_machine_name (c # take 3 cs)" and "c # cs = [] @ (c # take 3 cs) @ drop 3 cs"
proof -
  from assms obtain a b e rest where cs: "cs = a # b # e # rest"
    by (metis Suc_le_length_iff numeral_3_eq_3)
  with assms show "is_machine_name (c # take 3 cs)" by (simp add: is_machine_name_def)
  show "c # cs = [] @ (c # take 3 cs) @ drop 3 cs" by simp
qed

lemma match_machine_None: "match_machine s = None \<longleftrightarrow> \<not> has_match s"
proof (induction s)
  case Nil
  show ?case by (auto simp: has_match_def is_machine_name_def)
next
  case (Cons c cs)
  show ?case
  proof (cases "(c = CHR ''R'' \<or> c = CHR ''r'') \<and> 3 \<le> length cs \<and> list_all is_digit (take 3 cs)")
    case True
    from match_machine_head[OF True] have "has_match (c # cs)"
      unfolding has_match_def by blast
    with True show ?thesis by simp
  next
    case False
    have "has_match (c # cs) \<longleftrightarrow> has_match cs"
    proof
      assume "has_match (c # cs)"
      then obtain pre m post where d: "c # cs = pre @ m @ post" and m: "is_machine_name m"
        unfolding has_match_def by blast
      show "has_match cs"
      proof (cases pre)
        case Nil
        with d m have "\<exists>m post. c # cs = m @ post \<and> is_machine_name m" by auto
        with False show ?thesis using is_machine_name_prefix_Cons[of c cs] by blast
      next
        case (Cons p pre')
        with d have "cs = pre' @ m @ post" by simp
        with m show ?thesis unfolding has_match_def by blast
      qed
    next
      assume "has_match cs"
      then obtain pre m post where "cs = pre @ m @ post" "is_machine_name m"
        unfolding has_match_def by blast
      then have "c # cs = (c # pre) @ m @ post \<and> is_machine_name m" by simp
      then show "has_match (c # cs)" unfolding has_match_def by blast
    qed
    moreover from False have "match_machine (c # cs) = match_machine cs" by auto
    ultimately show ?thesis using Cons.IH by simp
  qed
qed

lemma match_machine_Some: "match_machine s = Some m \<Longrightarrow> is_first_match s m"
proof (induction s)
  case Nil
  then show ?case by simp
next
  case (Cons c cs)
  show ?case
  proof (cases "(c = CHR ''R'' \<or> c = CHR ''r'') \<and> 3 \<le> length cs \<and> list_all is_digit (take 3 cs)")
    case True
    with Cons.prems have m: "m = c # take 3 cs" by simp
    from match_machine_head[OF True] m
    have "c # cs = [] @ m @ drop 3 cs" "is_machine_name m" by simp_all
    then show ?thesis unfolding is_first_match_def
      by (metis length_0_conv le0 list.size(3))
  next
    case False
    with Cons.prems have "match_machine cs = Some m" by simp
    from Cons.IH[OF this] obtain pre post where d: "cs = pre @ m @ post" and m: "is_machine_name m"
      and least: "\<forall>pre' m' post'. cs = pre' @ m' @ post' \<and> is_machine_name m' \<longrightarrow> length pre \<le> length pre'"
      unfolding is_first_match_def by blast
    have "length (c # pre) \<le> length q" if q: "c # cs = q @ m' @ post'" and m': "is_machine_name m'" for q m' post'
    proof (cases q)
      case Nil
      with q m' have "\<exists>m post. c # cs = m @ post \<and> is_machine_name m" by auto
      with False show ?thesis using is_machine_name_prefix_Cons[of c cs] by blast
    next
      case (Cons p q')
      with q have "cs = q' @ m' @ post'" by simp
      with least m' have "length pre \<le> length q'" by blast
      with Cons show ?thesis by simp
    qed
    moreover have "c # cs = (c # pre) @ m @ post" using d by simp
    ultimately show ?thesis unfolding is_first_match_def using m by blast
  qed
qed

text \<open>
  Claim C7.  \<open>getMachineName\<close> returns the first substring of the filename that is one
  \<open>R\<close> (upper or lower case) followed by three digits, as it stands in the filename; for
  a filename that is absent or empty, or has no such substring, it returns the empty
  string.  So \<open>fooR508bar.csv\<close> gives \<open>R508\<close>, \<open>r20-R508-r301-bar.csv\<close> gives
  \<open>R508\<close>, and \<open>foo-bar.csv\<close> gives the empty string.
\<close>

theorem getMachineName_first_match:
  "getMachineName None = [] \<and> getMachineName (Some []) = [] \<and>
   (has_match f \<longrightarrow> is_first_match f (getMachineName (Some f))) \<and>
   (\<not> has_match f \<longrightarrow> getMachineName (Some f) = []) \<and>
   getMachineName (Some ''fooR508bar.csv'') = ''R508'' \<and>
   getMachineName (Some ''r20-R508-r301-bar.csv'') = ''R508'' \<and>
   getMachineName (Some ''foo-bar.csv'') = []"
proof -
  have "is_first_match f (getMachineName (Some f))" if h: "has_match f"
  proof -
    from h have ne: "f \<noteq> []" by (auto simp: has_match_def is_machine_name_def)
    from h obtain m where m: "match_machine f = Some m"
      using match_machine_None[of f] by (cases "match_machine f") auto
    with ne have "getMachineName (Some f) = m" by (simp add: getMachineName_def)
    with match_machine_Some[OF m] show ?thesis by simp
  qed
  moreover have "getMachineName (Some f) = []" if "\<not> has_match f"
    using that match_machine_None[of f] by (simp add: getMachineName_def)
  moreover have "getMachineName (Some ''fooR508bar.csv'') = ''R508''"
    by (simp add: getMachineName_def is_digit_def)
  moreover have "getMachineName (Some ''r20-R508-r301-bar.csv'') = ''R508''"
    by (simp add: getMachineName_def is_digit_def)
  moreover have "getMachineName (Some ''foo-bar.csv'') = []"
    by (simp add: getMachineName_def is_digit_def)
  ultimately show ?thesis by (simp add: getMachineName_def)
qed

theorem getMachineName_first_match_witness:
  "has_match ''xr301R508.csv'' \<and> is_first_match ''xr301R508.csv'' ''r301'' \<and>
   \<not> has_match ''R50-r2x.csv'' \<and> getMachineName (Some ''R50-r2x.csv'') = []"
proof -
  have "''xr301R508.csv'' = ''x'' @ ''r301'' @ ''R508.csv'' \<and> is_machine_name ''r301''"
    by (simp add: is_machine_name_def is_digit_def)
  then have h: "has_match ''xr301R508.csv''" unfolding has_match_def by blast
  have g: "getMachineName (Some ''xr301R508.csv'') = ''r301''"
    by (simp add: getMachineName_def is_digit_def)
  have "match_machine ''R50-r2x.csv'' = None" by (simp add: is_digit_def)
  then have n: "\<not> has_match ''R50-r2x.csv''" using match_machine_None[of "''R50-r2x.csv''"] by blast
  from getMachineName_first_match[of "''xr301R508.csv''"] h g
  have 1: "is_first_match ''xr301R508.csv'' ''r301''" by simp
  from getMachineName_first_match[of "''R50-r2x.csv''"] n
  have 2: "getMachineName (Some ''R50-r2x.csv'') = []" by blast
  from h 1 n 2 show ?thesis by blast
qed

section \<open>Field normalizer: when a record is returned\<close>

lemma match_paperType_None: "match_paperType s = None \<longleftrightarrow> (\<forall>c \<in> set s. \<not> is_digit c)"
  by (induction s) auto

lemma reduce_color_returns:
  "(''color'', column) \<in> set dict \<Longrightarrow> normalizeDataRow_reduce E row dict ob = Inr out \<Longrightarrow>
   isNumber E (get row column) \<or> (\<exists>s. get row column = Str s)"
proof (induction dict arbitrary: ob)
  case Nil
  then show ?case by simp
next
  case (Cons p dict)
  obtain key c where p: "p = (key, c)" by (cases p)
  show ?case
  proof (cases "p = (''color'', column)")
    case True
    with Cons.prems(2) show ?thesis
      by (auto simp: Let_def split: if_splits jsval.splits)
  next
    case False
    with Cons.prems(1) have m: "(''color'', column) \<in> set dict" by simp
    from Cons.prems(2) p obtain ob' where "normalizeDataRow_reduce E row dict ob' = Inr out"
      by (auto simp: Let_def split: if_splits jsval.splits)
    from Cons.IH[OF m this] show ?thesis .
  qed
qed

lemma reduce_Inl_TypeError: "normalizeDataRow_reduce E row dict ob = Inl e \<Longrightarrow> e = TypeError"
proof (induction dict arbitrary: ob)
  case Nil
  then show ?case by simp
next
  case (Cons p dict)
  obtain key c where p: "p = (key, c)" by (cases p)
  from Cons.prems p have "e = TypeError \<or> (\<exists>ob'. normalizeDataRow_reduce E row dict ob' = Inl e)"
    by (auto simp: Let_def split: if_splits jsval.splits)
  with Cons.IH show ?case by blast
qed

lemma reduce_color_throws:
  assumes "(''color'', column) \<in> set dict" and "\<not> isNumber E (get row column)"
    and "\<forall>s. get row column \<noteq> Str s"
  shows "normalizeDataRow_reduce E row dict ob = Inl TypeError"
proof (cases "normalizeDataRow_reduce E row dict ob")
  case (Inl e)
  with reduce_Inl_TypeError[OF Inl] show ?thesis by simp
next
  case (Inr out)
  from reduce_color_returns[OF assms(1) Inr] assms(2,3) show ?thesis by blast
qed

lemma reduce_colors_ok:
  "(\<forall>column. (''color'', column) \<in> set dict \<longrightarrow> isNumber E (get row column) \<or> (\<exists>s. get row column = Str s))
   \<Longrightarrow> \<exists>out. normalizeDataRow_reduce E row dict ob = Inr out"
proof (induction dict arbitrary: ob)
  case Nil
  show ?case by simp
next
  case (Cons p dict)
  obtain key c where p: "p = (key, c)" by (cases p)
  from Cons.prems have rest: "\<forall>column. (''color'', column) \<in> set dict \<longrightarrow>
      isNumber E (get row column) \<or> (\<exists>s. get row column = Str s)" by simp
  from Cons.prems p have head: "key = ''color'' \<longrightarrow> isNumber E (get row c) \<or> (\<exists>s. get row c = Str s)"
    by simp
  from Cons.IH[OF rest] have ih: "\<exists>out. normalizeDataRow_reduce E row dict ob' = Inr out" for ob' .
  show ?case
  proof (cases "isNumber E (get row c)")
    case True
    with p ih show ?thesis by simp
  next
    case False
    show ?thesis
    proof (cases "key = ''color''")
      case True
      with head False obtain s where "get row c = Str s" by blast
      with p True False ih show ?thesis by simp
    next
      case nc: False
      with p False ih show ?thesis by simp
    qed
  qed
qed

lemma normalizeDataRow_returns_iff:
  "(\<exists>out. normalizeDataRow E row dict = Inr out) \<longleftrightarrow>
   (\<forall>column. (''color'', column) \<in> set dict \<longrightarrow> isNumber E (get row column) \<or> (\<exists>s. get row column = Str s))"
  unfolding normalizeDataRow_def
  using reduce_colors_ok[of dict E row Map.empty] reduce_color_returns[of _ dict E row Map.empty]
  by blast

lemma normalizeMeta_returns_iff:
  "(\<exists>out. normalizeMeta input dict = Inr out) \<longleftrightarrow>
   (\<forall>s. get (project input dict) ''paperType'' = Str s \<longrightarrow> (\<exists>c \<in> set s. is_digit c))"
proof (cases "get (project input dict) ''paperType''")
  case (Str s)
  show ?thesis
  proof (cases "match_paperType s")
    case None
    with Str have "normalizeMeta input dict = Inl TypeError"
      by (simp add: normalizeMeta_def normalize_paperType_def)
    moreover from None have "\<forall>c \<in> set s. \<not> is_digit c" by (simp add: match_paperType_None)
    ultimately show ?thesis using Str by simp
  next
    case (Some m)
    then have "\<exists>c \<in> set s. is_digit c" using match_paperType_None[of s] by simp
    with Str Some show ?thesis by (simp add: normalizeMeta_def normalize_paperType_def)
  qed
qed (simp_all add: normalizeMeta_def normalize_paperType_def)

section \<open>Field normalizer: the key set\<close>

lemma dom_foldl_project:
  "dom (foldl (\<lambda>output (key, column). output(key \<mapsto> get input column)) m dict) = dom m \<union> fst ` set dict"
  by (induction dict arbitrary: m) (auto simp: case_prod_beta)

lemma dom_project: "dom (project input dict) = set (getKeys dict)"
  by (simp add: project_def getKeys_def dom_foldl_project)

lemma get_Str_dom: "get m k = Str s \<Longrightarrow> k \<in> dom m"
  by (auto simp: get_def split: option.splits)

lemma dom_overwrite_Str: "get m k = Str s \<Longrightarrow> dom (m(k \<mapsto> v)) = dom m"
proof -
  assume "get m k = Str s"
  then have "k \<in> dom m" by (rule get_Str_dom)
  then show ?thesis by (simp add: insert_absorb)
qed

lemma normalize_paperType_dom: "normalize_paperType output = Inr o1 \<Longrightarrow> dom o1 = dom output"
proof (cases "get output ''paperType''")
  case (Str s)
  assume "normalize_paperType output = Inr o1"
  with Str obtain m where "o1 = output(''paperType'' \<mapsto> Str m)"
    by (auto simp: normalize_paperType_def split: option.splits)
  with Str show ?thesis by (simp only: dom_overwrite_Str)
qed (auto simp: normalize_paperType_def)

lemma normalize_sheet_dom: "dom (normalize_sheet output) = dom output"
proof (cases "get output ''sheet''")
  case (Str s)
  then have "normalize_sheet output = output(''sheet'' \<mapsto> Str (trim (remove1 CHR ''-'' s)))"
    by (simp add: normalize_sheet_def)
  with Str show ?thesis by (simp only: dom_overwrite_Str)
qed (auto simp: normalize_sheet_def)

lemma normalizeMeta_dom:
  assumes "normalizeMeta input dict = Inr out"
  shows "dom out = set (getKeys dict)"
proof -
  from assms obtain o1 where 1: "normalize_paperType (project input dict) = Inr o1"
    and 2: "out = normalize_sheet o1"
    by (auto simp: normalizeMeta_def split: sum.splits)
  from normalize_paperType_dom[OF 1] 2 show ?thesis
    by (simp add: normalize_sheet_dom dom_project)
qed

lemma normalizeDataRow_reduce_dom:
  "normalizeDataRow_reduce E row dict ob = Inr out \<Longrightarrow> dom out = dom ob \<union> set (getKeys dict)"
proof (induction dict arbitrary: ob)
  case Nil
  then show ?case by (simp add: getKeys_def)
next
  case (Cons p dict)
  obtain key column where p: "p = (key, column)" by (cases p)
  from Cons.prems p consider
      ob' where "normalizeDataRow_reduce E row dict ob' = Inr out" "dom ob' = insert key (dom ob)"
    by (auto simp: Let_def split: if_splits jsval.splits)
  then show ?case
    using Cons.IH p by (cases) (auto simp: getKeys_def)
qed

text \<open>
  Claim C2.  Whatever the input object holds, a record that \<open>normalizeMeta\<close> or
  \<open>normalizeDataRow\<close> returns has exactly the keys of the dictionary section: every
  declared key is present, and no other key is.  (The lemmas \<open>normalizeMeta_returns_iff\<close>
  and \<open>normalizeDataRow_returns_iff\<close> say for which inputs a record is returned.)
\<close>

theorem normalize_key_set:
  "(normalizeMeta input dict = Inr out \<longrightarrow> dom out = set (getKeys dict)) \<and>
   (normalizeDataRow E row dict' = Inr out' \<longrightarrow> dom out' = set (getKeys dict'))"
  using normalizeMeta_dom[of input dict out] normalizeDataRow_reduce_dom[of E row dict' Map.empty out']
  by (simp add: normalizeDataRow_def)

lemma toLowerCase_BLK: "toLowerCase ''BLK'' = ''blk''"
  by code_simp

theorem normalize_key_set_witness:
  "normalizeMeta [''Foo'' \<mapsto> Str ''bar'', ''baz'' \<mapsto> Bool True] [(''foo'', ''Foo'')] = Inr [''foo'' \<mapsto> Str ''bar''] \<and>
   dom [''foo'' \<mapsto> Str ''bar''] = set (getKeys [(''foo'', ''Foo'')]) \<and>
   normalizeDataRow sample_engine
     [''ColorName'' \<mapsto> Str ''BLK'', ''Measuring Unit'' \<mapsto> Str ''1'', ''Foo'' \<mapsto> Str ''Bar'', ''baz'' \<mapsto> Bool True]
     [(''color'', ''ColorName''), (''measuringUnit'', ''Measuring Unit''), (''foo'', ''Foo'')]
     = Inr [''color'' \<mapsto> Str ''blk'', ''measuringUnit'' \<mapsto> Num (Finite 1), ''foo'' \<mapsto> Str ''Bar''] \<and>
   dom [''color'' \<mapsto> Str ''blk'', ''measuringUnit'' \<mapsto> Num (Finite 1), ''foo'' \<mapsto> Str ''Bar'']
     = set (getKeys [(''color'', ''ColorName''), (''measuringUnit'', ''Measuring Unit''), (''foo'', ''Foo'')])"
proof -
  have m: "normalizeMeta [''Foo'' \<mapsto> Str ''bar'', ''baz'' \<mapsto> Bool True] [(''foo'', ''Foo'')] = Inr [''foo'' \<mapsto> Str ''bar'']"
    by (simp add: normalizeMeta_def normalize_paperType_def normalize_sheet_def project_def get_def)
  have d: "normalizeDataRow sample_engine
     [''ColorName'' \<mapsto> Str ''BLK'', ''Measuring Unit'' \<mapsto> Str ''1'', ''Foo'' \<mapsto> Str ''Bar'', ''baz'' \<mapsto> Bool True]
     [(''color'', ''ColorName''), (''measuringUnit'', ''Measuring Unit''), (''foo'', ''Foo'')]
     = Inr [''color'' \<mapsto> Str ''blk'', ''measuringUnit'' \<mapsto> Num (Finite 1), ''foo'' \<mapsto> Str ''Bar'']"
    by (simp add: normalizeDataRow_def get_def isNumber_def to_num_def sample_engine_def
        sample_to_number_def is_digit_def digit_value_def is_finite_def toLowerCase_BLK)
  from m d normalize_key_set[of "[''Foo'' \<mapsto> Str ''bar'', ''baz'' \<mapsto> Bool True]" "[(''foo'', ''Foo'')]" "[''foo'' \<mapsto> Str ''bar'']"
      sample_engine "[''ColorName'' \<mapsto> Str ''BLK'', ''Measuring Unit'' \<mapsto> Str ''1'', ''Foo'' \<mapsto> Str ''Bar'', ''baz'' \<mapsto> Bool True]"
      "[(''color'', ''ColorName''), (''measuringUnit'', ''Measuring Unit''), (''foo'', ''Foo'')]"
      "[''color'' \<mapsto> Str ''blk'', ''measuringUnit'' \<mapsto> Num (Finite 1), ''foo'' \<mapsto> Str ''Bar'']"]
  show ?thesis by blast
qed

section \<open>Legacy schema reconciler: proofs\<close>

text \<open>
  Claim C3.  A row whose \<open>tonVal40\<close> is defined (any value but \<open>undefined\<close>, also a
  falsy one) is returned as it is.  Otherwise the result holds under \<open>tonVal40\<close> the value
  that the row had under \<open>tonVal50\<close>, has neither the key \<open>tonVal50\<close> nor the key
  \<open>tonVal20\<close>, and agrees with the row on every other key.
\<close>

theorem correctOldTonval_spec:
  "(get r ''tonVal40'' \<noteq> Undefined \<longrightarrow> correctOldTonval r = r) \<and>
   (get r ''tonVal40'' = Undefined \<longrightarrow>
      correctOldTonval r ''tonVal40'' = Some (get r ''tonVal50'') \<and>
      ''tonVal50'' \<notin> dom (correctOldTonval r) \<and>
      ''tonVal20'' \<notin> dom (correctOldTonval r) \<and>
      (\<forall>k. k \<noteq> ''tonVal40'' \<and> k \<noteq> ''tonVal50'' \<and> k \<noteq> ''tonVal20'' \<longrightarrow> correctOldTonval r k = r k))"
  by (simp add: correctOldTonval_def Let_def)

theorem correctOldTonval_spec_witness:
  "get [''tonVal40'' \<mapsto> Num (Finite 0), ''tonVal50'' \<mapsto> Num (Finite 5)] ''tonVal40'' \<noteq> Undefined \<and>
   correctOldTonval [''tonVal40'' \<mapsto> Num (Finite 0), ''tonVal50'' \<mapsto> Num (Finite 5)]
     = [''tonVal40'' \<mapsto> Num (Finite 0), ''tonVal50'' \<mapsto> Num (Finite 5)] \<and>
   get [''color'' \<mapsto> Str ''blk'', ''tonVal40'' \<mapsto> Undefined, ''tonVal50'' \<mapsto> Num (Finite 5),
        ''tonVal20'' \<mapsto> Num (Finite 2)] ''tonVal40'' = Undefined \<and>
   correctOldTonval [''color'' \<mapsto> Str ''blk'', ''tonVal40'' \<mapsto> Undefined, ''tonVal50'' \<mapsto> Num (Finite 5),
        ''tonVal20'' \<mapsto> Num (Finite 2)] ''tonVal40'' = Some (Num (Finite 5)) \<and>
   ''tonVal50'' \<notin> dom (correctOldTonval [''color'' \<mapsto> Str ''blk'', ''tonVal40'' \<mapsto> Undefined,
        ''tonVal50'' \<mapsto> Num (Finite 5), ''tonVal20'' \<mapsto> Num (Finite 2)]) \<and>
   ''tonVal20'' \<notin> dom (correctOldTonval [''color'' \<mapsto> Str ''blk'', ''tonVal40'' \<mapsto> Undefined,
        ''tonVal50'' \<mapsto> Num (Finite 5), ''tonVal20'' \<mapsto> Num (Finite 2)]) \<and>
   correctOldTonval [''color'' \<mapsto> Str ''blk'', ''tonVal40'' \<mapsto> Undefined, ''tonVal50'' \<mapsto> Num (Finite 5),
        ''tonVal20'' \<mapsto> Num (Finite 2)] ''color'' = Some (Str ''blk'')"
proof -
  let ?r1 = "[''tonVal40'' \<mapsto> Num (Finite 0), ''tonVal50'' \<mapsto> Num (Finite 5)]"
  let ?r2 = "[''color'' \<mapsto> Str ''blk'', ''tonVal40'' \<mapsto> Undefined, ''tonVal50'' \<mapsto> Num (Finite 5),
        ''tonVal20'' \<mapsto> Num (Finite 2)]"
  have d1: "get ?r1 ''tonVal40'' \<noteq> Undefined" by (simp add: get_def)
  have d2: "get ?r2 ''tonVal40'' = Undefined" by (simp add: get_def)
  have g: "get ?r2 ''tonVal50'' = Num (Finite 5)" by (simp add: get_def)
  from correctOldTonval_spec[of ?r1] d1 have 1: "correctOldTonval ?r1 = ?r1" by blast
  from correctOldTonval_spec[of ?r2] d2 g
  have 2: "correctOldTonval ?r2 ''tonVal40'' = Some (Num (Finite 5))"
    and 3: "''tonVal50'' \<notin> dom (correctOldTonval ?r2)"
    and 4: "''tonVal20'' \<notin> dom (correctOldTonval ?r2)"
    and 5: "\<forall>k. k \<noteq> ''tonVal40'' \<and> k \<noteq> ''tonVal50'' \<and> k \<noteq> ''tonVal20'' \<longrightarrow> correctOldTonval ?r2 k = ?r2 k"
    by simp_all
  from 5 have 6: "correctOldTonval ?r2 ''color'' = Some (Str ''blk'')" by simp
  from d1 1 d2 2 3 4 6 show ?thesis by blast
qed

text \<open>
  Claim C8.  \<open>correctOldTonval\<close> is idempotent: applied to its own result it returns
  that result.
\<close>

theorem correctOldTonval_idempotent:
  "correctOldTonval (correctOldTonval r) = correctOldTonval r"
proof (cases "get r ''tonVal40'' \<noteq> Undefined")
  case True
  then show ?thesis by (simp add: correctOldTonval_def)
next
  case False
  let ?n = "r(''tonVal40'' \<mapsto> get r ''tonVal50'', ''tonVal50'' := None, ''tonVal20'' := None)"
  from False have 1: "correctOldTonval r = ?n" by (simp add: correctOldTonval_def Let_def)
  have g40: "get ?n ''tonVal40'' = get r ''tonVal50''" by (simp add: get_def)
  have g50: "get ?n ''tonVal50'' = Undefined" by (simp add: get_def)
  show ?thesis
  proof (cases "get r ''tonVal50'' = Undefined")
    case True
    with g40 g50 have "correctOldTonval ?n = ?n"
      by (auto simp: correctOldTonval_def Let_def fun_eq_iff)
    with 1 show ?thesis by simp
  next
    case False
    with g40 have "correctOldTonval ?n = ?n" by (simp add: correctOldTonval_def)
    with 1 show ?thesis by simp
  qed
qed

theorem correctOldTonval_idempotent_witness:
  "correctOldTonval (correctOldTonval [''tonVal50'' \<mapsto> Num (Finite 5), ''tonVal20'' \<mapsto> Num (Finite 2)])
     = [''tonVal40'' \<mapsto> Num (Finite 5)]"
proof -
  have "correctOldTonval [''tonVal50'' \<mapsto> Num (Finite 5), ''tonVal20'' \<mapsto> Num (Finite 2)]
          = [''tonVal40'' \<mapsto> Num (Finite 5)]"
    by (auto simp: correctOldTonval_def get_def Let_def fun_eq_iff)
  with correctOldTonval_idempotent[of "[''tonVal50'' \<mapsto> Num (Finite 5), ''tonVal20'' \<mapsto> Num (Finite 2)]"]
  show ?thesis by simp
qed

section \<open>Header mapper: proofs\<close>

lemma mapToHeaders_reduce_dom:
  "dom (mapToHeaders_reduce E r h i ob) = dom ob \<union> (\<lambda>j. to_key E (nth_cell h j)) ` {i ..< i + length r}"
proof (induction r arbitrary: i ob)
  case Nil
  show ?case by simp
next
  case (Cons v r)
  let ?f = "\<lambda>j. to_key E (nth_cell h j)"
  have step: "mapToHeaders_reduce E (v # r) h i ob = mapToHeaders_reduce E r h (Suc i) (ob(?f i \<mapsto> v))"
    by simp
  have "dom (mapToHeaders_reduce E (v # r) h i ob) =
        dom (ob(?f i \<mapsto> v)) \<union> ?f ` {Suc i ..< Suc i + length r}"
    unfolding step by (rule Cons.IH)
  also have "\<dots> = insert (?f i) (dom ob) \<union> ?f ` {Suc i ..< Suc i + length r}"
    by simp
  also have "\<dots> = dom ob \<union> ?f ` insert i {Suc i ..< Suc i + length r}"
    by (simp only: image_insert) blast
  also have "insert i {Suc i ..< Suc i + length r} = {i ..< i + length (v # r)}"
    by auto
  finally show ?case .
qed

lemma mapToHeaders_reduce_last:
  "r \<noteq> [] \<Longrightarrow> to_key E (nth_cell h (i + length r - 1)) = k \<Longrightarrow>
   mapToHeaders_reduce E r h i ob k = Some (last r)"
proof (induction r arbitrary: i ob)
  case Nil
  then show ?case by simp
next
  case (Cons v r)
  show ?case
  proof (cases "r = []")
    case True
    with Cons.prems show ?thesis by simp
  next
    case False
    have idx: "i + length (v # r) - 1 = Suc i + length r - 1" by simp
    from Cons.prems(2) have "to_key E (nth_cell h (Suc i + length r - 1)) = k"
      by (simp only: idx)
    from Cons.IH[OF False this]
    have "mapToHeaders_reduce E r h (Suc i) (ob(to_key E (nth_cell h i) \<mapsto> v)) k = Some (last r)" .
    with False show ?thesis by simp
  qed
qed

lemma nth_cell_image_take:
  "n \<le> length h \<Longrightarrow> (\<lambda>j. to_key E (nth_cell h j)) ` {0 ..< n} = to_key E ` set (take n h)"
proof -
  assume n: "n \<le> length h"
  have "set (take n h) = (\<lambda>j. h ! j) ` {0 ..< n}"
    using n by (auto simp: set_conv_nth image_iff) (metis min.absorb2 nth_take)+
  moreover have "(\<lambda>j. to_key E (nth_cell h j)) ` {0 ..< n} = (\<lambda>j. to_key E (h ! j)) ` {0 ..< n}"
    using n by (auto simp: nth_cell_def image_iff)
  ultimately show ?thesis by (simp add: image_image)
qed

text \<open>
  Claim C4 says that the values of a row beyond the last header are dropped.  They are
  not: \<open>headers[i]\<close> is \<open>undefined\<close> there, and the value is written under the key
  \<open>undefined\<close>.
\<close>

theorem mapToHeaders_counterexample:
  "mapToHeaders sample_engine [Num (Finite 1), Num (Finite 2)] [Str ''foo'']
     = [''foo'' \<mapsto> Num (Finite 1), ''undefined'' \<mapsto> Num (Finite 2)]"
  by (simp add: mapToHeaders_def to_key_def nth_cell_def)

text \<open>
  Claim C4, amended.  When the row is longer than the headers, every value beyond the last
  header is written under the one key \<open>undefined\<close>, so that key ends up holding the last
  value of the row.  When the row is not longer than the headers, the keys of the result
  are the names of the first \<open>length r\<close> headers, so a later header whose name is not
  among them receives no entry.
\<close>

theorem mapToHeaders_length_mismatch:
  "(length h < length r \<longrightarrow> mapToHeaders E r h ''undefined'' = Some (last r)) \<and>
   (length r \<le> length h \<longrightarrow> dom (mapToHeaders E r h) = to_key E ` set (take (length r) h)) \<and>
   (length r \<le> j \<and> j < length h \<and> to_key E (h ! j) \<notin> to_key E ` set (take (length r) h)
      \<longrightarrow> mapToHeaders E r h (to_key E (h ! j)) = None)"
proof -
  have a: "mapToHeaders E r h ''undefined'' = Some (last r)" if "length h < length r"
  proof -
    from that have ne: "r \<noteq> []" by auto
    from that have "\<not> (0 + length r - 1 < length h)" by arith
    then have "nth_cell h (0 + length r - 1) = Undefined" by (simp only: nth_cell_def if_False)
    then have "to_key E (nth_cell h (0 + length r - 1)) = ''undefined''"
      by (simp add: to_key_def)
    from mapToHeaders_reduce_last[OF ne this] show ?thesis by (simp add: mapToHeaders_def)
  qed
  have b: "dom (mapToHeaders E r h) = to_key E ` set (take (length r) h)" if "length r \<le> length h"
    using that mapToHeaders_reduce_dom[of E r h 0 Map.empty]
    by (simp add: mapToHeaders_def nth_cell_image_take)
  have c: "mapToHeaders E r h (to_key E (h ! j)) = None"
    if "length r \<le> j \<and> j < length h \<and> to_key E (h ! j) \<notin> to_key E ` set (take (length r) h)"
  proof -
    from that have "length r \<le> length h" by simp
    from b[OF this] that show ?thesis by (auto simp: dom_def)
  qed
  from a b c show ?thesis by blast
qed

theorem mapToHeaders_length_mismatch_witness:
  "length [Str ''foo''] < length [Num (Finite 1), Num (Finite 2), Num (Finite 3)] \<and>
   mapToHeaders sample_engine [Num (Finite 1), Num (Finite 2), Num (Finite 3)] [Str ''foo''] ''undefined''
     = Some (Num (Finite 3)) \<and>
   length [Num (Finite 1)] \<le> length [Str ''foo'', Str ''bar''] \<and>
   dom (mapToHeaders sample_engine [Num (Finite 1)] [Str ''foo'', Str ''bar'']) = {''foo''} \<and>
   mapToHeaders sample_engine [Num (Finite 1)] [Str ''foo'', Str ''bar''] ''bar'' = None"
proof -
  have 1: "mapToHeaders sample_engine [Num (Finite 1), Num (Finite 2), Num (Finite 3)] [Str ''foo''] ''undefined''
     = Some (Num (Finite 3))"
    using mapToHeaders_length_mismatch[of "[Str ''foo'']" "[Num (Finite 1), Num (Finite 2), Num (Finite 3)]" sample_engine 0]
    by simp
  have 2: "dom (mapToHeaders sample_engine [Num (Finite 1)] [Str ''foo'', Str ''bar'']) = {''foo''}"
    using mapToHeaders_length_mismatch[of "[Str ''foo'', Str ''bar'']" "[Num (Finite 1)]" sample_engine 1]
    by (simp add: to_key_def)
  have 3: "mapToHeaders sample_engine [Num (Finite 1)] [Str ''foo'', Str ''bar''] ''bar'' = None"
    using mapToHeaders_length_mismatch[of "[Str ''foo'', Str ''bar'']" "[Num (Finite 1)]" sample_engine 1]
    by (simp add: to_key_def)
  from 1 2 3 show ?thesis by simp
qed

section \<open>Header mapper on the store: proofs\<close>

lemma heap_get_object_write_other:
  "b \<noteq> a \<Longrightarrow> heap_get (object_write h a k v) b = heap_get h b"
  by (simp add: object_write_def heap_get_def split: option.splits cell.splits)

lemma heap_get_callback_other:
  "b \<noteq> obj \<Longrightarrow> heap_get (mapToHeaders_callback E row hdrs obj h i) b = heap_get h b"
  by (simp add: mapToHeaders_callback_def heap_get_object_write_other)

lemma heap_get_foldl_callback_other:
  "b \<noteq> obj \<Longrightarrow> heap_get (foldl (mapToHeaders_callback E row hdrs obj) h js) b = heap_get h b"
  by (induction js arbitrary: h) (simp_all add: heap_get_callback_other)

lemma isArray_allocated: "isArray h a \<Longrightarrow> a < length h"
  by (auto simp: isArray_def heap_get_def split: if_splits)

lemma mapToHeaders_heap_frame:
  "heap_get (fst (mapToHeaders_heap E row hdrs h)) b = heap_get h b" if "b < length h \<or> \<not> isArray h row \<or> \<not> isArray h hdrs"
proof (cases "isArray h row \<and> isArray h hdrs")
  case False
  then show ?thesis by (auto simp: mapToHeaders_heap_def)
next
  case True
  with that have b: "b < length h" by blast
  then have ne: "b \<noteq> length h" by simp
  from True have "fst (mapToHeaders_heap E row hdrs h) =
      foldl (mapToHeaders_callback E row hdrs (length h)) (h @ [Obj Map.empty]) [0 ..< array_length h row]"
    by (simp add: mapToHeaders_heap_def alloc_def)
  then have "heap_get (fst (mapToHeaders_heap E row hdrs h)) b = heap_get (h @ [Obj Map.empty]) b"
    using heap_get_foldl_callback_other[OF ne] by simp
  also have "\<dots> = heap_get h b" using b by (simp add: heap_get_def nth_append)
  finally show ?thesis .
qed

text \<open>
  Claim C9.  A call of \<open>mapToHeaders\<close> leaves the array of the row and the array of the
  headers as they were: after the call the store holds at their two addresses what it
  held before, also when the two are one array and when an assertion fails.
\<close>

theorem mapToHeaders_inputs_unchanged:
  "heap_get (fst (mapToHeaders_heap E row hdrs h)) row = heap_get h row \<and>
   heap_get (fst (mapToHeaders_heap E row hdrs h)) hdrs = heap_get h hdrs"
proof -
  have "row < length h \<or> \<not> isArray h row \<or> \<not> isArray h hdrs"
    using isArray_allocated[of h row] by blast
  moreover have "hdrs < length h \<or> \<not> isArray h row \<or> \<not> isArray h hdrs"
    using isArray_allocated[of h hdrs] by blast
  ultimately show ?thesis by (simp add: mapToHeaders_heap_frame)
qed

lemma foldl_callback_reduce:
  assumes row: "row < length h" "h ! row = Arr r"
    and hdrs: "hdrs < length h" "h ! hdrs = Arr hs"
  shows "i + n \<le> length r \<Longrightarrow>
    foldl (mapToHeaders_callback E row hdrs (length h)) (h @ [Obj ob]) [i ..< i + n]
      = h @ [Obj (mapToHeaders_reduce E (take n (drop i r)) hs i ob)]"
proof (induction n arbitrary: i ob)
  case 0
  show ?case by simp
next
  case (Suc n)
  from Suc.prems have i: "i < length r" by simp
  let ?ob = "ob(to_key E (nth_cell hs i) \<mapsto> nth_cell r i)"
  have rd: "array_read (h @ [Obj ob]) row i = nth_cell r i"
    using row by (simp add: array_read_def heap_get_def nth_append)
  have hd: "array_read (h @ [Obj ob]) hdrs i = nth_cell hs i"
    using hdrs by (simp add: array_read_def heap_get_def nth_append)
  have cb: "mapToHeaders_callback E row hdrs (length h) (h @ [Obj ob]) i = h @ [Obj ?ob]"
    by (simp add: mapToHeaders_callback_def rd hd) (simp add: object_write_def heap_get_def)
  have up: "[i ..< i + Suc n] = i # [Suc i ..< Suc i + n]"
    by (simp add: upt_rec)
  have tk: "take (Suc n) (drop i r) = nth_cell r i # take n (drop (Suc i) r)"
    using i by (simp add: nth_cell_def Cons_nth_drop_Suc[symmetric])
  from Suc.prems have "Suc i + n \<le> length r" by simp
  from Suc.IH[OF this, of ?ob]
  have "foldl (mapToHeaders_callback E row hdrs (length h)) (h @ [Obj ?ob]) [Suc i ..< Suc i + n]
      = h @ [Obj (mapToHeaders_reduce E (take n (drop (Suc i) r)) hs (Suc i) ?ob)]" .
  then show ?case by (simp only: up tk foldl_Cons cb mapToHeaders_reduce.simps)
qed

lemma mapToHeaders_heap_result:
  assumes "heap_get h row = Some (Arr r)" and "heap_get h hdrs = Some (Arr hs)"
  shows "mapToHeaders_heap E row hdrs h = (h @ [Obj (mapToHeaders E r hs)], Inr (length h))"
proof -
  from assms have row: "row < length h" "h ! row = Arr r" and hdrs: "hdrs < length h" "h ! hdrs = Arr hs"
    by (auto simp: heap_get_def split: if_splits)
  from assms have a: "isArray h row" "isArray h hdrs" "array_length h row = length r"
    by (simp_all add: isArray_def array_length_def)
  have "foldl (mapToHeaders_callback E row hdrs (length h)) (h @ [Obj Map.empty]) [0 ..< 0 + length r]
      = h @ [Obj (mapToHeaders_reduce E (take (length r) (drop 0 r)) hs 0 Map.empty)]"
    by (rule foldl_callback_reduce[OF row hdrs]) simp
  then show ?thesis using a by (simp add: mapToHeaders_heap_def alloc_def mapToHeaders_def)
qed

theorem mapToHeaders_inputs_unchanged_witness:
  "mapToHeaders_heap sample_engine 0 1 [Arr [Num (Finite 1), Num (Finite 2)], Arr [Str ''foo'', Str ''bar'']]
     = ([Arr [Num (Finite 1), Num (Finite 2)], Arr [Str ''foo'', Str ''bar''],
         Obj [''foo'' \<mapsto> Num (Finite 1), ''bar'' \<mapsto> Num (Finite 2)]], Inr 2) \<and>
   heap_get (fst (mapToHeaders_heap sample_engine 0 1 [Arr [Num (Finite 1), Num (Finite 2)], Arr [Str ''foo'', Str ''bar'']])) 0
     = Some (Arr [Num (Finite 1), Num (Finite 2)]) \<and>
   heap_get (fst (mapToHeaders_heap sample_engine 0 1 [Arr [Num (Finite 1), Num (Finite 2)], Arr [Str ''foo'', Str ''bar'']])) 1
     = Some (Arr [Str ''foo'', Str ''bar''])"
proof -
  let ?h = "[Arr [Num (Finite 1), Num (Finite 2)], Arr [Str ''foo'', Str ''bar'']]"
  have m: "mapToHeaders sample_engine [Num (Finite 1), Num (Finite 2)] [Str ''foo'', Str ''bar'']
     = [''foo'' \<mapsto> Num (Finite 1), ''bar'' \<mapsto> Num (Finite 2)]"
    by (simp add: mapToHeaders_def to_key_def nth_cell_def)
  have e: "mapToHeaders_heap sample_engine 0 1 ?h
     = (?h @ [Obj [''foo'' \<mapsto> Num (Finite 1), ''bar'' \<mapsto> Num (Finite 2)]], Inr 2)"
    using mapToHeaders_heap_result[of ?h 0 "[Num (Finite 1), Num (Finite 2)]" 1 "[Str ''foo'', Str ''bar'']" sample_engine]
    by (simp add: heap_get_def m)
  from mapToHeaders_inputs_unchanged[of sample_engine 0 1 ?h] e
  show ?thesis by (simp add: heap_get_def)
qed

section \<open>Secondary colours: proofs\<close>

lemma truthy_not_falsy:
  "truthy v \<Longrightarrow> v \<noteq> Num (Finite 0) \<and> v \<noteq> Num NaN \<and> v \<noteq> Str [] \<and> v \<noteq> Null \<and> v \<noteq> Undefined \<and> v \<noteq> Bool False"
  by (auto simp: truthy_def)

text \<open>
  Claim C5.  In every record that \<open>normalizeSecondaryColorRow\<close> returns, the three
  values \<open>act_L\<close>, \<open>act_a\<close> and \<open>act_b\<close> are truthy: none of them is zero, the empty
  string, \<open>null\<close> or \<open>undefined\<close>.
\<close>

theorem normalizeSecondaryColorRow_truthy:
  "\<forall>r \<in> set (normalizeSecondaryColorRow E row dict).
     truthy (get r ''act_L'') \<and> truthy (get r ''act_a'') \<and> truthy (get r ''act_b'') \<and>
     (\<forall>k \<in> {''act_L'', ''act_a'', ''act_b''}.
        get r k \<noteq> Num (Finite 0) \<and> get r k \<noteq> Str [] \<and> get r k \<noteq> Null \<and> get r k \<noteq> Undefined)"
proof
  fix r assume "r \<in> set (normalizeSecondaryColorRow E row dict)"
  then have t: "truthy (get r ''act_L'')" "truthy (get r ''act_a'')" "truthy (get r ''act_b'')"
    by (simp_all add: normalizeSecondaryColorRow_def)
  from t truthy_not_falsy[of "get r ''act_L''"] truthy_not_falsy[of "get r ''act_a''"]
    truthy_not_falsy[of "get r ''act_b''"]
  show "truthy (get r ''act_L'') \<and> truthy (get r ''act_a'') \<and> truthy (get r ''act_b'') \<and>
     (\<forall>k \<in> {''act_L'', ''act_a'', ''act_b''}.
        get r k \<noteq> Num (Finite 0) \<and> get r k \<noteq> Str [] \<and> get r k \<noteq> Null \<and> get r k \<noteq> Undefined)"
    by simp
qed

lemma toLowerCase_CM: "toLowerCase ''CM'' = ''cm''" "toLowerCase ''MY'' = ''my''" "toLowerCase ''CY'' = ''cy''"
  by code_simp+

lemma sample_to_number_values:
  "sample_to_number ''15'' = Finite 15" "sample_to_number ''17'' = Finite 17"
  "sample_to_number ''0'' = Finite 0" "sample_to_number ''1'' = Finite 1"
  by (simp_all add: sample_to_number_def is_digit_def digit_value_def)

lemma sample_secondary_rows:
  "normalizeSecondaryColorRow sample_engine sample_secondary_row (dict_secondary sample_dictionary)
     = [[''colorName'' \<mapsto> Str ''CM'', ''color'' \<mapsto> Str ''cm'', ''act_L'' \<mapsto> Num (Finite 1),
         ''act_a'' \<mapsto> Num (Finite 15), ''act_b'' \<mapsto> Num (Finite 17)]]"
  by (simp add: normalizeSecondaryColorRow_def sample_dictionary_def sample_secondary_row_def
      sample_engine_def tryNumber_def isNumber_def to_num_def is_finite_def get_def truthy_def
      toLowerCase_CM sample_to_number_values)

theorem normalizeSecondaryColorRow_truthy_witness:
  "[''colorName'' \<mapsto> Str ''CM'', ''color'' \<mapsto> Str ''cm'', ''act_L'' \<mapsto> Num (Finite 1),
         ''act_a'' \<mapsto> Num (Finite 15), ''act_b'' \<mapsto> Num (Finite 17)]
     \<in> set (normalizeSecondaryColorRow sample_engine sample_secondary_row (dict_secondary sample_dictionary)) \<and>
   truthy (get [''colorName'' \<mapsto> Str ''CM'', ''color'' \<mapsto> Str ''cm'', ''act_L'' \<mapsto> Num (Finite 1),
         ''act_a'' \<mapsto> Num (Finite 15), ''act_b'' \<mapsto> Num (Finite 17)] ''act_a'') \<and>
   get [''colorName'' \<mapsto> Str ''CM'', ''color'' \<mapsto> Str ''cm'', ''act_L'' \<mapsto> Num (Finite 1),
         ''act_a'' \<mapsto> Num (Finite 15), ''act_b'' \<mapsto> Num (Finite 17)] ''act_a'' \<noteq> Num (Finite 0)"
proof -
  let ?r = "[''colorName'' \<mapsto> Str ''CM'', ''color'' \<mapsto> Str ''cm'', ''act_L'' \<mapsto> Num (Finite 1),
         ''act_a'' \<mapsto> Num (Finite 15), ''act_b'' \<mapsto> Num (Finite 17)]"
  have m: "?r \<in> set (normalizeSecondaryColorRow sample_engine sample_secondary_row (dict_secondary sample_dictionary))"
    by (simp only: sample_secondary_rows list.set insert_iff simp_thms)
  from normalizeSecondaryColorRow_truthy[of sample_engine sample_secondary_row "dict_secondary sample_dictionary"] m
  have "truthy (get ?r ''act_a'') \<and> (\<forall>k \<in> {''act_L'', ''act_a'', ''act_b''}.
        get ?r k \<noteq> Num (Finite 0) \<and> get ?r k \<noteq> Str [] \<and> get ?r k \<noteq> Null \<and> get ?r k \<noteq> Undefined)"
    by blast
  then have "truthy (get ?r ''act_a'')" "get ?r ''act_a'' \<noteq> Num (Finite 0)" by blast+
  with m show ?thesis by blast
qed

section \<open>Field normalizer: the paper type\<close>

lemma match_paperType_Some: "match_paperType s = Some m \<Longrightarrow> leading_digit_F s m"
proof (induction s)
  case Nil
  then show ?case by simp
next
  case (Cons c cs)
  show ?case
  proof (cases "is_digit c")
    case True
    with Cons.prems
    have "m = c # (case cs of [] \<Rightarrow> [] | e # _ \<Rightarrow> if e = CHR ''F'' \<or> e = CHR ''f'' then [e] else [])"
      by simp
    with True have "c # cs = [] @ c # cs \<and> (\<forall>x \<in> set []. \<not> is_digit x) \<and> is_digit c \<and>
      m = c # (case cs of [] \<Rightarrow> [] | e # _ \<Rightarrow> if e = CHR ''F'' \<or> e = CHR ''f'' then [e] else [])"
      by simp
    then show ?thesis unfolding leading_digit_F_def by blast
  next
    case False
    with Cons.prems have "match_paperType cs = Some m" by simp
    from Cons.IH[OF this] obtain pre d rest where
      "cs = pre @ d # rest" "\<forall>x \<in> set pre. \<not> is_digit x" "is_digit d"
      "m = d # (case rest of [] \<Rightarrow> [] | e # _ \<Rightarrow> if e = CHR ''F'' \<or> e = CHR ''f'' then [e] else [])"
      unfolding leading_digit_F_def by blast
    with False have "c # cs = (c # pre) @ d # rest \<and> (\<forall>x \<in> set (c # pre). \<not> is_digit x) \<and> is_digit d \<and>
      m = d # (case rest of [] \<Rightarrow> [] | e # _ \<Rightarrow> if e = CHR ''F'' \<or> e = CHR ''f'' then [e] else [])"
      by simp
    then show ?thesis unfolding leading_digit_F_def by blast
  qed
qed

lemma normalize_sheet_paperType: "get (normalize_sheet output) ''paperType'' = get output ''paperType''"
  by (cases "get output ''sheet''") (simp_all add: normalize_sheet_def get_def)

text \<open>
  Claim C6.  When the value that the projection leaves under \<open>paperType\<close> is a string:
  if the string has a digit, \<open>normalizeMeta\<close> returns a record whose \<open>paperType\<close> is
  the first digit of the string, followed by the \<open>F\<close> (in either case) that stands right
  after it, if one does; if the string has no digit, the extraction throws and no record
  is returned.
\<close>

theorem normalizeMeta_paperType:
  assumes "get (project input dict) ''paperType'' = Str s"
  shows "((\<exists>c \<in> set s. is_digit c) \<longrightarrow>
            (\<exists>out m. normalizeMeta input dict = Inr out \<and> get out ''paperType'' = Str m \<and> leading_digit_F s m)) \<and>
         ((\<forall>c \<in> set s. \<not> is_digit c) \<longrightarrow> normalizeMeta input dict = Inl TypeError)"
proof (cases "match_paperType s")
  case None
  with assms have "normalizeMeta input dict = Inl TypeError"
    by (simp add: normalizeMeta_def normalize_paperType_def)
  with None show ?thesis by (simp add: match_paperType_None)
next
  case (Some m)
  let ?o1 = "(project input dict)(''paperType'' \<mapsto> Str m)"
  from Some assms have "normalizeMeta input dict = Inr (normalize_sheet ?o1)"
    by (simp add: normalizeMeta_def normalize_paperType_def)
  moreover have "get (normalize_sheet ?o1) ''paperType'' = Str m"
    by (simp add: normalize_sheet_paperType) (simp add: get_def)
  moreover note match_paperType_Some[OF Some]
  moreover from Some have "\<not> (\<forall>c \<in> set s. \<not> is_digit c)"
    using match_paperType_None[of s] by simp
  ultimately show ?thesis by blast
qed

theorem normalizeMeta_paperType_witness:
  "get (project [''paperType'' \<mapsto> Str ''4 (bar)''] [(''paperType'', ''paperType'')]) ''paperType'' = Str ''4 (bar)'' \<and>
   (\<exists>out m. normalizeMeta [''paperType'' \<mapsto> Str ''4 (bar)''] [(''paperType'', ''paperType'')] = Inr out \<and>
      get out ''paperType'' = Str m \<and> leading_digit_F ''4 (bar)'' m) \<and>
   normalizeMeta [''paperType'' \<mapsto> Str ''4 (bar)''] [(''paperType'', ''paperType'')] = Inr [''paperType'' \<mapsto> Str ''4''] \<and>
   get (project [''paperType'' \<mapsto> Str ''bar''] [(''paperType'', ''paperType'')]) ''paperType'' = Str ''bar'' \<and>
   normalizeMeta [''paperType'' \<mapsto> Str ''bar''] [(''paperType'', ''paperType'')] = Inl TypeError"
proof -
  have p1: "get (project [''paperType'' \<mapsto> Str ''4 (bar)''] [(''paperType'', ''paperType'')]) ''paperType'' = Str ''4 (bar)''"
    by (simp add: project_def get_def)
  have p2: "get (project [''paperType'' \<mapsto> Str ''bar''] [(''paperType'', ''paperType'')]) ''paperType'' = Str ''bar''"
    by (simp add: project_def get_def)
  have d1: "\<exists>c \<in> set ''4 (bar)''. is_digit c" by (simp add: is_digit_def)
  have d2: "\<forall>c \<in> set ''bar''. \<not> is_digit c" by (simp add: is_digit_def)
  have e: "normalizeMeta [''paperType'' \<mapsto> Str ''4 (bar)''] [(''paperType'', ''paperType'')] = Inr [''paperType'' \<mapsto> Str ''4'']"
    by (simp add: normalizeMeta_def normalize_paperType_def normalize_sheet_def project_def get_def is_digit_def)
  from normalizeMeta_paperType[OF p1] d1
  have 1: "\<exists>out m. normalizeMeta [''paperType'' \<mapsto> Str ''4 (bar)''] [(''paperType'', ''paperType'')] = Inr out \<and>
      get out ''paperType'' = Str m \<and> leading_digit_F ''4 (bar)'' m" by blast
  from normalizeMeta_paperType[OF p2] d2
  have 2: "normalizeMeta [''paperType'' \<mapsto> Str ''bar''] [(''paperType'', ''paperType'')] = Inl TypeError" by blast
  from p1 1 e p2 2 show ?thesis by blast
qed

section \<open>Stream driver: proofs\<close>

lemma feed_append:
  "feed E D st (xs @ ys) = (case feed E D st xs of Inl e \<Rightarrow> Inl e | Inr st' \<Rightarrow> feed E D st' ys)"
  by (induction xs arbitrary: st) (auto split: sum.splits)


lemma parser_feed_Inl:
  "or_else (filename f) (path f) = Some name \<Longrightarrow> feed E D initial_state (rows f) = Inl e \<Longrightarrow>
   parser E D f = \<lparr>uncaught = None, cb_calls = [\<lparr>cb_err = Some e, cb_result = None\<rparr>]\<rparr>"
  by (simp add: parser_def)

lemma sample_to_number_cells:
  "sample_to_number ''1'' = Finite 1" "sample_to_number ''2'' = Finite 2" "sample_to_number ''50'' = Finite 50"
  "sample_to_number ''BLK'' = NaN"
  by (simp_all add: sample_to_number_def is_digit_def digit_value_def)

lemma sample_mapped:
  "mapToHeaders sample_engine [Str ''1'', Str ''BLK'', Str ''50'']
     [Str ''Protocolled Measuring No'', Str ''ColorName'', Str ''Tonval 50'']
   = [''Protocolled Measuring No'' \<mapsto> Str ''1'', ''ColorName'' \<mapsto> Str ''BLK'', ''Tonval 50'' \<mapsto> Str ''50'']"
  by (simp add: mapToHeaders_def to_key_def nth_cell_def)

lemma sample_normalized:
  "normalizeDataRow sample_engine
     [''Protocolled Measuring No'' \<mapsto> Str ''1'', ''ColorName'' \<mapsto> Str ''BLK'', ''Tonval 50'' \<mapsto> Str ''50'']
     (dict_data sample_dictionary)
   = Inr [''color'' \<mapsto> Str ''blk'', ''measuringNo'' \<mapsto> Num (Finite 1), ''tonVal40'' \<mapsto> Undefined,
          ''tonVal50'' \<mapsto> Num (Finite 50), ''tonVal20'' \<mapsto> Undefined]"
  by (simp add: normalizeDataRow_def sample_dictionary_def sample_engine_def get_def isNumber_def
      to_num_def is_finite_def sample_to_number_cells toLowerCase_BLK)

lemma sample_corrected:
  "correctOldTonval [''color'' \<mapsto> Str ''blk'', ''measuringNo'' \<mapsto> Num (Finite 1), ''tonVal40'' \<mapsto> Undefined,
          ''tonVal50'' \<mapsto> Num (Finite 50), ''tonVal20'' \<mapsto> Undefined]
   = [''color'' \<mapsto> Str ''blk'', ''measuringNo'' \<mapsto> Num (Finite 1), ''tonVal40'' \<mapsto> Num (Finite 50)]"
  by (auto simp: correctOldTonval_def get_def Let_def fun_eq_iff)

lemma sample_feed:
  "feed sample_engine sample_dictionary initial_state sample_rows = Inr sample_final_state"
  by (simp add: sample_rows_def initial_state_def sample_final_state_def onData_def skip_def
      isHeaderRow_def isSecondaryColorRow_def nth_cell_def to_key_def
      sample_mapped sample_normalized sample_corrected)








lemma null_color_mapped:
  "mapToHeaders sample_engine [Str ''2'', Null, Str ''50'']
      [Str ''Protocolled Measuring No'', Str ''ColorName'', Str ''Tonval 50'']
    = [''Protocolled Measuring No'' \<mapsto> Str ''2'', ''ColorName'' \<mapsto> Null, ''Tonval 50'' \<mapsto> Str ''50'']"
  by (simp add: mapToHeaders_def to_key_def nth_cell_def)


text \<open>
  Claim C10.  Let the \<open>data\<close> section declare the key \<open>color\<close> with a source column.
  Then \<open>normalizeDataRow\<close> returns a record only if the row's value in that column is
  number-like or a string, and throws a \<open>TypeError\<close> if the value is \<open>null\<close> or
  \<open>undefined\<close>.  In the stream driver, a row of the data section that is not skipped and
  whose cell in that column is \<open>null\<close> or missing makes \<open>onData\<close> throw: the row is
  not added to the values, no later row is handled, and the parse of a named stream ends
  with one call of the callback, with the \<open>TypeError\<close> and no result.
\<close>

theorem null_color_throws:
  assumes "(''color'', column) \<in> set (dict_data D)"
  shows "(normalizeDataRow E row (dict_data D) = Inr out \<longrightarrow>
            isNumber E (get row column) \<or> (\<exists>s. get row column = Str s)) \<and>
         (get row column = Null \<or> get row column = Undefined \<longrightarrow>
            normalizeDataRow E row (dict_data D) = Inl TypeError) \<and>
         (rows f = before @ r # rest \<and> feed E D initial_state before = Inr st \<and> isData st \<and> \<not> skip r \<and>
          (get (mapToHeaders E r (headers st)) column = Null \<or>
           get (mapToHeaders E r (headers st)) column = Undefined) \<longrightarrow>
            onData E D st r = Inl TypeError \<and>
            feed E D initial_state (rows f) = Inl TypeError \<and>
            (or_else (filename f) (path f) = Some name \<longrightarrow>
               parser E D f = \<lparr>uncaught = None, cb_calls = [\<lparr>cb_err = Some TypeError, cb_result = None\<rparr>]\<rparr>))"
proof -
  have a: "isNumber E (get row column) \<or> (\<exists>s. get row column = Str s)"
    if "normalizeDataRow E row (dict_data D) = Inr out" for row out
    using that reduce_color_returns[OF assms] by (simp add: normalizeDataRow_def)
  have b: "normalizeDataRow E row (dict_data D) = Inl TypeError"
    if "get row column = Null \<or> get row column = Undefined" for row
  proof -
    from that have "\<not> isNumber E (get row column)" "\<forall>s. get row column \<noteq> Str s"
      by (auto simp: isNumber_def)
    from reduce_color_throws[OF assms this] show ?thesis by (simp add: normalizeDataRow_def)
  qed
  have c: "onData E D st r = Inl TypeError \<and>
            feed E D initial_state (rows f) = Inl TypeError \<and>
            (or_else (filename f) (path f) = Some name \<longrightarrow>
               parser E D f = \<lparr>uncaught = None, cb_calls = [\<lparr>cb_err = Some TypeError, cb_result = None\<rparr>]\<rparr>)"
    if h: "rows f = before @ r # rest \<and> feed E D initial_state before = Inr st \<and> isData st \<and> \<not> skip r \<and>
          (get (mapToHeaders E r (headers st)) column = Null \<or>
           get (mapToHeaders E r (headers st)) column = Undefined)"
  proof -
    from h b[of "mapToHeaders E r (headers st)"]
    have "normalizeDataRow E (mapToHeaders E r (headers st)) (dict_data D) = Inl TypeError" by blast
    with h have od: "onData E D st r = Inl TypeError" by (simp add: onData_def)
    with h have fd: "feed E D initial_state (rows f) = Inl TypeError" by (simp add: feed_append)
    from parser_feed_Inl[OF _ fd] od fd show ?thesis by blast
  qed
  from a[of row out] b[of row] c show ?thesis by blast
qed

theorem null_color_throws_witness:
  "(''color'', ''ColorName'') \<in> set (dict_data sample_dictionary) \<and>
   rows null_color_stream = sample_rows @ [Str ''2'', Null, Str ''50''] # [] \<and>
   feed sample_engine sample_dictionary initial_state sample_rows = Inr sample_final_state \<and>
   isData sample_final_state \<and>
   get (mapToHeaders sample_engine [Str ''2'', Null, Str ''50''] (headers sample_final_state)) ''ColorName'' = Null \<and>
   normalizeDataRow sample_engine (mapToHeaders sample_engine [Str ''2'', Null, Str ''50''] (headers sample_final_state))
     (dict_data sample_dictionary) = Inl TypeError \<and>
   onData sample_engine sample_dictionary sample_final_state [Str ''2'', Null, Str ''50''] = Inl TypeError \<and>
   feed sample_engine sample_dictionary initial_state (rows null_color_stream) = Inl TypeError \<and>
   parser sample_engine sample_dictionary null_color_stream
     = \<lparr>uncaught = None, cb_calls = [\<lparr>cb_err = Some TypeError, cb_result = None\<rparr>]\<rparr> \<and>
   normalizeDataRow sample_engine
     [''Protocolled Measuring No'' \<mapsto> Str ''1'', ''ColorName'' \<mapsto> Str ''BLK'', ''Tonval 50'' \<mapsto> Str ''50'']
     (dict_data sample_dictionary)
   = Inr [''color'' \<mapsto> Str ''blk'', ''measuringNo'' \<mapsto> Num (Finite 1), ''tonVal40'' \<mapsto> Undefined,
          ''tonVal50'' \<mapsto> Num (Finite 50), ''tonVal20'' \<mapsto> Undefined] \<and>
   (\<exists>s. get [''Protocolled Measuring No'' \<mapsto> Str ''1'', ''ColorName'' \<mapsto> Str ''BLK'', ''Tonval 50'' \<mapsto> Str ''50'']
     ''ColorName'' = Str s)"
proof -
  let ?r = "[Str ''2'', Null, Str ''50'']"
  let ?ok = "[''Protocolled Measuring No'' \<mapsto> Str ''1'', ''ColorName'' \<mapsto> Str ''BLK'', ''Tonval 50'' \<mapsto> Str ''50'']"
  have c: "(''color'', ''ColorName'') \<in> set (dict_data sample_dictionary)"
    by (simp add: sample_dictionary_def)
  have r: "rows null_color_stream = sample_rows @ ?r # []"
    by (simp add: null_color_stream_def sample_stream_def)
  have nm: "or_else (filename null_color_stream) (path null_color_stream) = Some ''fixtures/R508_12-07-19.csv''"
    by (simp add: null_color_stream_def sample_stream_def or_else_def)
  have d: "isData sample_final_state" by (simp add: sample_final_state_def)
  have s: "\<not> skip ?r" by (simp add: skip_def nth_cell_def)
  have g: "get (mapToHeaders sample_engine ?r (headers sample_final_state)) ''ColorName'' = Null"
    by (simp add: sample_final_state_def null_color_mapped get_def)
  have n: "\<not> isNumber sample_engine (get ?ok ''ColorName'')"
    by (simp add: get_def isNumber_def sample_engine_def sample_to_number_cells is_finite_def)
  note t = null_color_throws[OF c, of sample_engine]
  from t[of "mapToHeaders sample_engine ?r (headers sample_final_state)"] g
  have 1: "normalizeDataRow sample_engine (mapToHeaders sample_engine ?r (headers sample_final_state))
     (dict_data sample_dictionary) = Inl TypeError" by blast
  from r sample_feed d s g
  have h: "rows null_color_stream = sample_rows @ ?r # [] \<and>
     feed sample_engine sample_dictionary initial_state sample_rows = Inr sample_final_state \<and>
     isData sample_final_state \<and> \<not> skip ?r \<and>
     (get (mapToHeaders sample_engine ?r (headers sample_final_state)) ''ColorName'' = Null \<or>
      get (mapToHeaders sample_engine ?r (headers sample_final_state)) ''ColorName'' = Undefined)"
    by (intro conjI disjI1)
  note t3 = t[of ?ok "Map.empty" null_color_stream sample_rows ?r "[]" sample_final_state "''fixtures/R508_12-07-19.csv''",
      THEN conjunct2, THEN conjunct2, THEN mp, OF h]
  from t3 have 2: "onData sample_engine sample_dictionary sample_final_state ?r = Inl TypeError"
    by (rule conjunct1)
  from t3 have 3: "feed sample_engine sample_dictionary initial_state (rows null_color_stream) = Inl TypeError"
    by (elim conjE)
  from t3 nm have 4: "parser sample_engine sample_dictionary null_color_stream
     = \<lparr>uncaught = None, cb_calls = [\<lparr>cb_err = Some TypeError, cb_result = None\<rparr>]\<rparr>"
    by (elim conjE) (erule mp)
  from t[of ?ok] sample_normalized n
  have 5: "\<exists>s. get ?ok ''ColorName'' = Str s" by blast
  from c r sample_feed d g 1 2 3 4 sample_normalized 5 show ?thesis by (intro conjI)
qed










end
